theory Spec2Isabelle
  imports Main
begin

section \<open>JavaScript values, exceptions and the API Gateway types\<close>

text \<open>
  The handler pipeline (class \<open>APIGLambdaHandler\<close>, class \<open>Injector\<close>) and the route-graph
  assembly inside \<open>QuoteHandler.handleRequest\<close> are embedded as HOL functions. A thrown
  exception is the \<open>Inl\<close> of a sum, a returned (awaited) value is the \<open>Inr\<close>. \<open>await\<close> is
  sequential composition. The construction of the logger is modelled, since it can throw; the
  calls \<open>log.info\<close> and \<open>log.error\<close> on a constructed logger and the calls to the metrics
  sink return nothing that the code reads and do not throw, and are left out, as is the flush of
  the metrics that \<open>metricScope\<close> adds around the function.
\<close>

datatype exn = Error string | TypeError string | SyntaxError string

text \<open>
  A JavaScript value: what \<open>JSON.parse\<close> produces, \<open>undefined\<close> for an absent property,
  and a \<open>BigInt\<close>, which a body returned by business logic may hold and which
  \<open>JSON.stringify\<close> cannot serialise. Numbers are restricted to integers; no definition
  below computes with them. A cyclic object, the other value \<open>JSON.stringify\<close> throws on, is
  not a value of this type.
\<close>

datatype jsval =
    Undefined
  | Null
  | Bool bool
  | Num int
  | BigInt int
  | Str string
  | Arr "jsval list"
  | Obj "(string \<times> jsval) list"

text \<open>\<open>obj[k]\<close>: the property's value, \<open>undefined\<close> when the object has no such property.\<close>

definition getProp :: "(string \<times> jsval) list \<Rightarrow> string \<Rightarrow> jsval" where
  "getProp props k = (case map_of props k of None \<Rightarrow> Undefined | Some v \<Rightarrow> v)"

text \<open>The property names of an object; a value that is not an object has none.\<close>

fun fieldNames :: "jsval \<Rightarrow> string set" where
  "fieldNames (Obj props) = set (map fst props)"
| "fieldNames v = {}"

text \<open>
  \<open>APIGatewayProxyEvent\<close>: only \<open>body\<close> is read by the pipeline (\<open>string | null\<close>).
  \<open>Context\<close>: only \<open>awsRequestId\<close> is read.
\<close>

record APIGatewayProxyEvent =
  event_body :: "string option"

record Context =
  awsRequestId :: string

text \<open>
  The body of an \<open>APIGatewayProxyResult\<close> is a string. It is either a string the code writes
  literally (\<open>Text\<close>), or the result of \<open>JSON.stringify\<close> on a value, which is kept as that
  value.
\<close>

datatype payload = Text string | JSON_stringify jsval

text \<open>
  Whether a value holds a \<open>BigInt\<close>, at any depth; and the call \<open>JSON.stringify(v)\<close>
  itself, which throws a \<open>TypeError\<close> on such a value and gives the string otherwise.
\<close>

fun hasBigInt :: "jsval \<Rightarrow> bool" where
  "hasBigInt (BigInt n) = True"
| "hasBigInt (Arr xs) = list_ex hasBigInt xs"
| "hasBigInt (Obj props) = list_ex (\<lambda>p. hasBigInt (snd p)) props"
| "hasBigInt v = False"

definition stringify :: "jsval \<Rightarrow> exn + payload" where
  "stringify v =
     (if hasBigInt v then Inl (TypeError ''Do not know how to serialize a BigInt'')
      else Inr (JSON_stringify v))"

text \<open>
  \<open>bunyan.createLogger({ name, ..., requestId })\<close>, a call into the library \<open>bunyan\<close>: the
  constructor throws a \<open>TypeError\<close> when \<open>name\<close> is the empty string, and gives a logger
  otherwise.
\<close>

record Logger =
  logger_name :: string
  requestId :: string

definition createLogger :: "string \<Rightarrow> string \<Rightarrow> exn + Logger" where
  "createLogger name rid =
     (if name = [] then Inl (TypeError ''options.name (string) is required'')
      else Inr \<lparr> logger_name = name, requestId = rid \<rparr>)"

record APIGatewayProxyResult =
  statusCode :: int
  body :: payload

text \<open>
  \<open>Response<Res> | ErrorResponse\<close>, what \<open>handleRequest\<close> resolves to. TypeScript's union
  is untagged: at run time the pipeline reads the properties \<open>statusCode\<close>, \<open>body\<close>,
  \<open>errorCode\<close> and \<open>detail\<close> of the object, and a property the object does not have reads as
  \<open>undefined\<close>. The status code is an integer here; \<open>wellTyped\<close> says when it is one the
  TypeScript types allow.
\<close>

datatype HandleRequestResult =
    Response int jsval
  | ErrorResponse int string "string option"

fun statusCode_of :: "HandleRequestResult \<Rightarrow> int" where
  "statusCode_of (Response sc b) = sc"
| "statusCode_of (ErrorResponse sc ec d) = sc"

fun body_of :: "HandleRequestResult \<Rightarrow> jsval" where
  "body_of (Response sc b) = b"
| "body_of (ErrorResponse sc ec d) = Undefined"

fun errorCode_of :: "HandleRequestResult \<Rightarrow> jsval" where
  "errorCode_of (Response sc b) = Undefined"
| "errorCode_of (ErrorResponse sc ec d) = Str ec"

fun detail_of :: "HandleRequestResult \<Rightarrow> jsval" where
  "detail_of (Response sc b) = Undefined"
| "detail_of (ErrorResponse sc ec None) = Undefined"
| "detail_of (ErrorResponse sc ec (Some d)) = Str d"


section \<open>The schema validator the pipeline calls\<close>

text \<open>
  \<open>bodySchema.validate(body, {allowUnknown, stripUnknown})\<close> is a call into the library
  \<open>@hapi/joi\<close>, which is not part of the repository. It is modelled for the schemas the
  repository declares, \<open>Joi.object({k1: rule1, ...})\<close>, by the behaviour the library documents
  for the two options the pipeline passes:
  \<^item> every declared key is checked by its rule, in the order of the declaration; the first
    failure is the error, and its message is \<open>error.message\<close>;
  \<^item> a rule receives the property's value (\<open>undefined\<close> when absent) and gives the value to
    keep, which may be converted; \<open>undefined\<close> leaves the key out of the result;
  \<^item> with \<open>stripUnknown: true\<close> the keys that the schema does not declare are removed from
    the result; otherwise they are an error unless \<open>allowUnknown\<close> is true, in which case they
    stay in the result;
  \<^item> a value that is neither \<open>undefined\<close> nor an object fails.
  The result \<open>{error, value}\<close> is a sum: \<open>Inl\<close> of \<open>error.message\<close>, or \<open>Inr\<close> of
  \<open>value\<close>. The model stops short of the library in three places: a rule reads the value of
  its own key only (no \<open>Joi.ref\<close> or \<open>when\<close> on another key); the validated object lists the
  declared keys in the order of the schema, where the library keeps the order of the input; and
  the texts of the library's own messages are abridged. No statement below depends on the order
  of the properties of an object.
\<close>

type_synonym KeySchema = "jsval \<Rightarrow> string + jsval"

record ObjectSchema =
  keys :: "(string \<times> KeySchema) list"

record ValidationOptions =
  allowUnknown :: bool
  stripUnknown :: bool

fun validateKeys ::
  "(string \<times> KeySchema) list \<Rightarrow> (string \<times> jsval) list \<Rightarrow> string + (string \<times> jsval) list" where
  "validateKeys [] props = Inr []"
| "validateKeys ((k, rule) # ks) props =
     (case rule (getProp props k) of
        Inl message \<Rightarrow> Inl message
      | Inr v \<Rightarrow>
          (case validateKeys ks props of
             Inl message \<Rightarrow> Inl message
           | Inr out \<Rightarrow> Inr (if v = Undefined then out else (k, v) # out)))"

definition unknownFields :: "ObjectSchema \<Rightarrow> (string \<times> jsval) list \<Rightarrow> (string \<times> jsval) list" where
  "unknownFields schema props = filter (\<lambda>(k, v). k \<notin> set (map fst (keys schema))) props"

definition validate :: "ObjectSchema \<Rightarrow> jsval \<Rightarrow> ValidationOptions \<Rightarrow> string + jsval" where
  "validate schema v opts =
     (case v of
        Undefined \<Rightarrow> Inr Undefined
      | Obj props \<Rightarrow>
          (case validateKeys (keys schema) props of
             Inl message \<Rightarrow> Inl message
           | Inr known \<Rightarrow>
               if stripUnknown opts then Inr (Obj known)
               else if unknownFields schema props \<noteq> [] \<and> \<not> allowUnknown opts
                 then Inl (fst (hd (unknownFields schema props)) @ '' is not allowed'')
               else Inr (Obj (known @ unknownFields schema props)))
      | _ \<Rightarrow> Inl ''value must be of type object'')"

section \<open>The injector\<close>

text \<open>
  \<open>class Injector<CInj, RInj, Req>\<close>. The private field \<open>containerInjected\<close> is \<open>None\<close> while
  it is \<open>undefined\<close>, as the constructor leaves it. The abstract methods are fields of the
  record: \<open>buildContainerInjected\<close> is what the awaited call gives (a container, or the error it
  rejects with), \<open>getRequestInjected\<close> is a function of the container, the request, the event
  and the context. \<open>'cinj\<close> is the type of container objects, \<open>'rinj\<close> of request objects;
  a container object is a defined value, so that \<open>Some c\<close> is never \<open>undefined\<close>.
\<close>

record ('cinj, 'rinj) Injector =
  containerInjected :: "'cinj option"
  buildContainerInjected :: "exn + 'cinj"
  getRequestInjected ::
    "'cinj \<Rightarrow> jsval \<Rightarrow> APIGatewayProxyEvent \<Rightarrow> Context \<Rightarrow> exn + 'rinj"

definition newInjector ::
  "exn + 'cinj \<Rightarrow> ('cinj \<Rightarrow> jsval \<Rightarrow> APIGatewayProxyEvent \<Rightarrow> Context \<Rightarrow> exn + 'rinj)
     \<Rightarrow> ('cinj, 'rinj) Injector" where
  "newInjector b g =
     \<lparr> containerInjected = None, buildContainerInjected = b, getRequestInjected = g \<rparr>"

text \<open>
  \<open>build()\<close>: awaits \<open>buildContainerInjected()\<close>, stores the result, returns \<open>this\<close>. When
  the awaited call rejects, the assignment does not happen and \<open>build\<close> rejects.
\<close>

definition build :: "('cinj, 'rinj) Injector \<Rightarrow> exn + ('cinj, 'rinj) Injector" where
  "build self =
     (case buildContainerInjected self of
        Inl err \<Rightarrow> Inl err
      | Inr c \<Rightarrow> Inr (self\<lparr> containerInjected := Some c \<rparr>))"

definition getContainerInjected :: "('cinj, 'rinj) Injector \<Rightarrow> exn + 'cinj" where
  "getContainerInjected self =
     (case containerInjected self of
        None \<Rightarrow> Inl (Error ''Container injected undefined. Must call build() before using.'')
      | Some c \<Rightarrow> Inr c)"

section \<open>The handler pipeline\<close>

text \<open>
  \<open>class APIGLambdaHandler<CInj, RInj, Req, Res>\<close>: the constructor's two fields and the three
  abstract methods. \<open>Req\<close> and \<open>Res\<close> are JavaScript values. The schema getters may throw, as
  any method may. \<open>handleRequest\<close> takes the members of \<open>HandleRequestParams\<close> one by one.
\<close>

record ('cinj, 'rinj) APIGLambdaHandler =
  handlerName :: string
  injector :: "('cinj, 'rinj) Injector"
  handleRequest ::
    "Context \<Rightarrow> APIGatewayProxyEvent \<Rightarrow> jsval \<Rightarrow> 'cinj \<Rightarrow> 'rinj \<Rightarrow> exn + HandleRequestResult"
  requestBodySchema :: "exn + ObjectSchema option"
  responseBodySchema :: "exn + ObjectSchema option"

definition INTERNAL_ERROR :: APIGatewayProxyResult where
  "INTERNAL_ERROR =
     \<lparr> statusCode = 500,
       body = JSON_stringify
         (Obj [(''errorCode'', Str ''INTERNAL_ERROR''), (''detail'', Str ''Unexpected error.'')]) \<rparr>"

definition isError :: "HandleRequestResult \<Rightarrow> bool" where
  "isError result = (statusCode_of result \<noteq> 200 \<and> statusCode_of result \<noteq> 202)"

text \<open>\<open>{ state: 'valid', ... } | { state: 'invalid', errorResponse }\<close>.\<close>

datatype validation = Valid jsval | Invalid APIGatewayProxyResult

text \<open>
  \<open>parseAndValidateRequest\<close>. \<open>JSON.parse\<close> is the runtime's, taken as a parameter: \<open>None\<close>
  where it throws. Only that call stands in the method's own \<open>try\<close>.
\<close>

definition parseAndValidateRequest ::
  "(string \<Rightarrow> jsval option) \<Rightarrow> ('cinj, 'rinj) APIGLambdaHandler \<Rightarrow> APIGatewayProxyEvent
     \<Rightarrow> exn + validation" where
  "parseAndValidateRequest JSON_parse h event =
     (case JSON_parse (case event_body event of None \<Rightarrow> [] | Some s \<Rightarrow> s) of
        None \<Rightarrow> Inr (Invalid \<lparr> statusCode = 422, body = Text [] \<rparr>)
      | Some parsed \<Rightarrow>
          (case requestBodySchema h of
             Inl err \<Rightarrow> Inl err
           | Inr None \<Rightarrow> Inr (Valid parsed)
           | Inr (Some bodySchema) \<Rightarrow>
               (case validate bodySchema parsed \<lparr> allowUnknown = True, stripUnknown = True \<rparr> of
                  Inl message \<Rightarrow> Inr (Invalid \<lparr> statusCode = 400, body = Text message \<rparr>)
                | Inr v \<Rightarrow> Inr (Valid v))))"

definition parseAndValidateResponse ::
  "('cinj, 'rinj) APIGLambdaHandler \<Rightarrow> jsval \<Rightarrow> exn + validation" where
  "parseAndValidateResponse h b =
     (case responseBodySchema h of
        Inl err \<Rightarrow> Inl err
      | Inr None \<Rightarrow> Inr (Valid b)
      | Inr (Some responseSchema) \<Rightarrow>
          (case validate responseSchema b \<lparr> allowUnknown = True, stripUnknown = True \<rparr> of
             Inl message \<Rightarrow> Inr (Invalid \<lparr> statusCode = 500, body = Text ''Internal error'' \<rparr>)
           | Inr v \<Rightarrow> Inr (Valid v)))"

text \<open>
  The answer the last two stages decide on: the branch on \<open>isError\<close> inside the third
  \<open>try\<close>, then the fourth \<open>try\<close> around \<open>parseAndValidateResponse\<close>, then the final
  \<open>return\<close>. The body keeps the argument of \<open>JSON.stringify\<close>; the call is not evaluated
  here.
\<close>

definition respond ::
  "('cinj, 'rinj) APIGLambdaHandler \<Rightarrow> HandleRequestResult \<Rightarrow> APIGatewayProxyResult" where
  "respond h handleRequestResult =
     (if isError handleRequestResult then
        \<lparr> statusCode = statusCode_of handleRequestResult,
          body = JSON_stringify
            (Obj [(''detail'', detail_of handleRequestResult),
                  (''errorCode'', errorCode_of handleRequestResult)]) \<rparr>
      else
        (case parseAndValidateResponse h (body_of handleRequestResult) of
           Inl err \<Rightarrow> INTERNAL_ERROR
         | Inr (Invalid errorResponse) \<Rightarrow> errorResponse
         | Inr (Valid response) \<Rightarrow>
             \<lparr> statusCode = statusCode_of handleRequestResult,
               body = JSON_stringify response \<rparr>))"

text \<open>
  \<open>handler\<close>: the stages of the function the getter returns, from the first \<open>try\<close> to the
  answer the function decides on, for a logger that has been created and with the argument of
  the final \<open>JSON.stringify\<close> kept in the body, unevaluated. Each \<open>catch\<close> returns
  \<open>INTERNAL_ERROR\<close>. The call \<open>this.injector.getContainerInjected()\<close> stands between the
  first and the second \<open>try\<close>, inside neither: what it throws leaves the function, which is
  the \<open>Inl\<close> result here. The whole function, with the construction of the logger before
  the first \<open>try\<close> and the evaluation of \<open>JSON.stringify\<close> after the last, is
  \<open>handlerFunction\<close> below.
\<close>

definition handler ::
  "(string \<Rightarrow> jsval option) \<Rightarrow> ('cinj, 'rinj) APIGLambdaHandler \<Rightarrow> APIGatewayProxyEvent \<Rightarrow> Context
     \<Rightarrow> exn + APIGatewayProxyResult" where
  "handler JSON_parse h event ctx =
     (case parseAndValidateRequest JSON_parse h event of
        Inl err \<Rightarrow> Inr INTERNAL_ERROR
      | Inr (Invalid errorResponse) \<Rightarrow> Inr errorResponse
      | Inr (Valid request) \<Rightarrow>
          (case getContainerInjected (injector h) of
             Inl err \<Rightarrow> Inl err
           | Inr cinj \<Rightarrow>
               (case getRequestInjected (injector h) cinj request event ctx of
                  Inl err \<Rightarrow> Inr INTERNAL_ERROR
                | Inr requestInjected \<Rightarrow>
                    (case handleRequest h ctx event request cinj requestInjected of
                       Inl err \<Rightarrow> Inr INTERNAL_ERROR
                     | Inr handleRequestResult \<Rightarrow> Inr (respond h handleRequestResult)))))"

text \<open>
  \<open>handlerFunction\<close>: the whole function the getter \<open>handler\<close> returns, applied to an event
  and a context, line by line.
  \<^item> \<open>bunyan.createLogger\<close> stands before the first \<open>try\<close>: what it throws leaves the
    function.
  \<^item> The four \<open>try\<close> blocks follow, each \<open>catch\<close> returning \<open>INTERNAL_ERROR\<close>, with the
    call \<open>getContainerInjected()\<close> between the first and the second, inside neither.
  \<^item> \<open>({ log } = requestInjected)\<close> and \<open>log.info\<close> after the second \<open>try\<close> read a
    property of an object of type \<open>RInj extends BaseRInj\<close> and call a logger; they do not
    throw on a value of that type.
  \<^item> \<open>JSON.stringify({ detail, errorCode })\<close> of the error branch is evaluated inside the
    third \<open>try\<close>.
  \<^item> \<open>JSON.stringify(response)\<close> of the final \<open>return\<close> stands after the last
    \<open>try\<close>: what it throws leaves the function.
\<close>

definition handlerFunction ::
  "(string \<Rightarrow> jsval option) \<Rightarrow> ('cinj, 'rinj) APIGLambdaHandler \<Rightarrow> APIGatewayProxyEvent \<Rightarrow> Context
     \<Rightarrow> exn + APIGatewayProxyResult" where
  "handlerFunction JSON_parse h event ctx =
     (case createLogger (handlerName h) (awsRequestId ctx) of
        Inl err \<Rightarrow> Inl err
      | Inr log \<Rightarrow>
     (case parseAndValidateRequest JSON_parse h event of
        Inl err \<Rightarrow> Inr INTERNAL_ERROR
      | Inr (Invalid errorResponse) \<Rightarrow> Inr errorResponse
      | Inr (Valid request) \<Rightarrow>
     (case getContainerInjected (injector h) of
        Inl err \<Rightarrow> Inl err
      | Inr cinj \<Rightarrow>
     (case getRequestInjected (injector h) cinj request event ctx of
        Inl err \<Rightarrow> Inr INTERNAL_ERROR
      | Inr requestInjected \<Rightarrow>
     (case handleRequest h ctx event request cinj requestInjected of
        Inl err \<Rightarrow> Inr INTERNAL_ERROR
      | Inr handleRequestResult \<Rightarrow>
          if isError handleRequestResult then
            (case stringify (Obj [(''detail'', detail_of handleRequestResult),
                                  (''errorCode'', errorCode_of handleRequestResult)]) of
               Inl err \<Rightarrow> Inr INTERNAL_ERROR
             | Inr text \<Rightarrow>
                 Inr \<lparr> statusCode = statusCode_of handleRequestResult, body = text \<rparr>)
          else
            (case parseAndValidateResponse h (body_of handleRequestResult) of
               Inl err \<Rightarrow> Inr INTERNAL_ERROR
             | Inr (Invalid errorResponse) \<Rightarrow> Inr errorResponse
             | Inr (Valid response) \<Rightarrow>
                 (case stringify response of
                    Inl err \<Rightarrow> Inl err
                  | Inr text \<Rightarrow>
                      Inr \<lparr> statusCode = statusCode_of handleRequestResult,
                            body = text \<rparr>)))))))"

section \<open>The route graph of the quote response\<close>

text \<open>
  The types of \<open>@uniswap/sdk-core\<close> and \<open>@uniswap/smart-order-router\<close> that the loop in
  \<open>QuoteHandler.handleRequest\<close> reads, with the fields it reads. Big integers and numbers
  are integers. \<open>NodeInRoute\<close> and \<open>EdgeInRoute\<close> are the objects the loop pushes; their
  fields \<open>type\<close>, \<open>id\<close>, \<open>chainId\<close>, \<open>symbol\<close>, \<open>decimals\<close>, \<open>fee\<close>, \<open>liquidity\<close>,
  \<open>sqrtRatioX96\<close> and \<open>tickCurrent\<close> carry a prefix, since a token and a pool have fields of
  the same names.
\<close>

record Token =
  address :: string
  chainId :: int
  symbol :: string
  decimals :: int

record Pool =
  token0 :: Token
  token1 :: Token
  fee :: int
  liquidity :: int
  sqrtRatioX96 :: int
  tickCurrent :: int

record CurrencyAmount =
  quotient :: int

record Route =
  tokenPath :: "Token list"
  pools :: "Pool list"

record RouteAmount =
  route :: Route
  amount :: CurrencyAmount
  quote :: CurrencyAmount

record NodeInRoute =
  node_type :: string
  node_id :: string
  node_chainId :: int
  node_symbol :: string
  node_decimals :: string

record EdgeInRoute =
  edge_type :: string
  edge_id :: string
  inId :: string
  outId :: string
  edge_fee :: string
  edge_liquidity :: string
  edge_sqrtRatioX96 :: string
  edge_tickCurrent :: string
  amountIn :: "string option"
  amountOut :: "string option"

text \<open>The three locals the loop mutates: \<open>tokenSet\<close>, \<open>nodes\<close>, \<open>edges\<close>.\<close>

record GraphState =
  tokenSet :: "string set"
  nodes :: "NodeInRoute list"
  edges :: "EdgeInRoute list"

text \<open>\<open>toString()\<close> of an integer: its decimal digits, with a sign when negative.\<close>

definition digitChar :: "nat \<Rightarrow> char" where
  "digitChar d = ''0123456789'' ! d"

function natToString :: "nat \<Rightarrow> string" where
  "natToString n =
     (if n < 10 then [digitChar n] else natToString (n div 10) @ [digitChar (n mod 10)])"
  by pat_completeness auto
termination
  by (relation "measure (\<lambda>n. n)") auto

definition toString :: "int \<Rightarrow> string" where
  "toString i = (if i < 0 then CHR ''-'' # natToString (nat (- i)) else natToString (nat i))"

text \<open>\<open>xs[i]\<close> on an array: \<open>None\<close> is the \<open>undefined\<close> of an index out of range.\<close>

definition arrayAt :: "'a list \<Rightarrow> nat \<Rightarrow> 'a option" where
  "arrayAt xs i = (if i < length xs then Some (xs ! i) else None)"

text \<open>
  The object literal of the two \<open>nodes.push\<close> calls. \<open>id\<close>, \<open>chainId\<close> and \<open>symbol\<close> are
  read from the token \<open>tok\<close>; \<open>decimals\<close> is read from \<open>decimalsOf\<close>, which both call sites
  write as \<open>prevToken\<close>.
\<close>

definition tokenNode :: "Token \<Rightarrow> Token \<Rightarrow> NodeInRoute" where
  "tokenNode tok decimalsOf =
     \<lparr> node_type = ''token'', node_id = address tok, node_chainId = chainId tok,
       node_symbol = symbol tok, node_decimals = toString (decimals decimalsOf) \<rparr>"

text \<open>\<open>if (!tokenSet.has(tok.address)) { tokenSet.add(tok.address); nodes.push({...}) }\<close>.\<close>

definition pushNode :: "Token \<Rightarrow> Token \<Rightarrow> GraphState \<Rightarrow> GraphState" where
  "pushNode tok decimalsOf st =
     (if address tok \<notin> tokenSet st
      then st\<lparr> tokenSet := insert (address tok) (tokenSet st),
               nodes := nodes st @ [tokenNode tok decimalsOf] \<rparr>
      else st)"

definition edgeAmountIn :: "string \<Rightarrow> RouteAmount \<Rightarrow> nat \<Rightarrow> string option" where
  "edgeAmountIn ty routeAmount i =
     (if i = 0
      then Some (if ty = ''exactIn'' then toString (quotient (amount routeAmount))
                 else toString (quotient (quote routeAmount)))
      else None)"

definition edgeAmountOut :: "string \<Rightarrow> RouteAmount \<Rightarrow> nat \<Rightarrow> string option" where
  "edgeAmountOut ty routeAmount i =
     (if int i = int (length (pools (route routeAmount))) - 1
      then Some (if ty = ''exactIn'' then toString (quotient (quote routeAmount))
                 else toString (quotient (amount routeAmount)))
      else None)"

text \<open>
  The object literal of \<open>edges.push\<close>. \<open>getPoolAddress\<close> is
  \<open>poolProvider.getPoolAddress(token0, token1, fee).poolAddress\<close>, a parameter. The index
  \<open>tokenPath[i]\<close> is in range wherever the literal is built, since \<open>tokenPath[i + 1]\<close> was
  read before it.
\<close>

definition hopEdge ::
  "(Token \<Rightarrow> Token \<Rightarrow> int \<Rightarrow> string) \<Rightarrow> string \<Rightarrow> RouteAmount \<Rightarrow> nat \<Rightarrow> Pool \<Rightarrow> Token
     \<Rightarrow> EdgeInRoute" where
  "hopEdge getPoolAddress ty routeAmount i nextPool nextToken =
     \<lparr> edge_type = ''v3-pool'',
       edge_id = getPoolAddress (token0 nextPool) (token1 nextPool) (fee nextPool),
       inId = address (tokenPath (route routeAmount) ! i),
       outId = address nextToken,
       edge_fee = toString (fee nextPool),
       edge_liquidity = toString (liquidity nextPool),
       edge_sqrtRatioX96 = toString (sqrtRatioX96 nextPool),
       edge_tickCurrent = toString (tickCurrent nextPool),
       amountIn = edgeAmountIn ty routeAmount i,
       amountOut = edgeAmountOut ty routeAmount i \<rparr>"

text \<open>
  The inner loop \<open>for (let i = 0; i < pools.length; i++)\<close>, from index \<open>i\<close> on.
  \<open>nextToken.address\<close> throws a \<open>TypeError\<close> when \<open>tokenPath[i + 1]\<close> is \<open>undefined\<close>.
\<close>

function hopLoop ::
  "(Token \<Rightarrow> Token \<Rightarrow> int \<Rightarrow> string) \<Rightarrow> string \<Rightarrow> RouteAmount \<Rightarrow> nat \<Rightarrow> Token \<Rightarrow> GraphState
     \<Rightarrow> exn + GraphState" where
  "hopLoop getPoolAddress ty routeAmount i prevToken st =
     (if i < length (pools (route routeAmount)) then
        (case arrayAt (tokenPath (route routeAmount)) (i + 1) of
           None \<Rightarrow> Inl (TypeError ''nextToken is undefined'')
         | Some nextToken \<Rightarrow>
             (let nextPool = pools (route routeAmount) ! i;
                  st1 = pushNode nextToken prevToken st;
                  st2 = st1\<lparr> edges := edges st1 @
                          [hopEdge getPoolAddress ty routeAmount i nextPool nextToken] \<rparr>
              in hopLoop getPoolAddress ty routeAmount (i + 1) nextToken st2))
      else Inr st)"
  by pat_completeness auto
termination
  by (relation "measure (\<lambda>(g, ty, ra, i, p, st). length (pools (route ra)) - i)") auto

text \<open>
  The outer loop \<open>for (const routeAmount of routeAmounts)\<close>. \<open>prevToken.address\<close> throws a
  \<open>TypeError\<close> when \<open>tokenPath[0]\<close> is \<open>undefined\<close>.
\<close>

fun routeLoop ::
  "(Token \<Rightarrow> Token \<Rightarrow> int \<Rightarrow> string) \<Rightarrow> string \<Rightarrow> RouteAmount list \<Rightarrow> GraphState
     \<Rightarrow> exn + GraphState" where
  "routeLoop getPoolAddress ty [] st = Inr st"
| "routeLoop getPoolAddress ty (routeAmount # rest) st =
     (case arrayAt (tokenPath (route routeAmount)) 0 of
        None \<Rightarrow> Inl (TypeError ''prevToken is undefined'')
      | Some prevToken \<Rightarrow>
          (case hopLoop getPoolAddress ty routeAmount 0 prevToken
                  (pushNode prevToken prevToken st) of
             Inl err \<Rightarrow> Inl err
           | Inr st' \<Rightarrow> routeLoop getPoolAddress ty rest st'))"

text \<open>
  The part of \<open>QuoteHandler.handleRequest\<close> from \<open>const nodes = []\<close> to the end of the outer
  loop: the values of \<open>routeNodes\<close> and \<open>routeEdges\<close> in the response. \<open>ty\<close> is the request's
  \<open>type\<close>.
\<close>

definition routeGraph ::
  "(Token \<Rightarrow> Token \<Rightarrow> int \<Rightarrow> string) \<Rightarrow> string \<Rightarrow> RouteAmount list
     \<Rightarrow> exn + NodeInRoute list \<times> EdgeInRoute list" where
  "routeGraph getPoolAddress ty routeAmounts =
     (case routeLoop getPoolAddress ty routeAmounts \<lparr> tokenSet = {}, nodes = [], edges = [] \<rparr> of
        Inl err \<Rightarrow> Inl err
      | Inr st \<Rightarrow> Inr (nodes st, edges st))"

text \<open>The loop's invariant: the seen-set is the set of node ids, and no id is pushed twice.\<close>

definition nodeInv :: "GraphState \<Rightarrow> bool" where
  "nodeInv st =
     (tokenSet st = set (map node_id (nodes st)) \<and> distinct (map node_id (nodes st)))"

text \<open>The edges one path contributes, hop by hop.\<close>

definition pathEdges ::
  "(Token \<Rightarrow> Token \<Rightarrow> int \<Rightarrow> string) \<Rightarrow> string \<Rightarrow> RouteAmount \<Rightarrow> EdgeInRoute list" where
  "pathEdges g ty ra =
     map (\<lambda>j. hopEdge g ty ra j (pools (route ra) ! j) (tokenPath (route ra) ! (j + 1)))
       [0..<length (pools (route ra))]"

section \<open>Concrete inputs\<close>

text \<open>
  Five tokens and the paths \<open>A - B - C\<close>, \<open>D - B - E\<close> and \<open>A - B\<close> over them; each
  token has decimals of its own, \<open>B\<close> has 6.
\<close>

definition tokA :: Token where
  "tokA = \<lparr> address = ''0xA'', chainId = 1, symbol = ''WETH'', decimals = 18 \<rparr>"

definition tokB :: Token where
  "tokB = \<lparr> address = ''0xB'', chainId = 1, symbol = ''USDC'', decimals = 6 \<rparr>"

definition tokC :: Token where
  "tokC = \<lparr> address = ''0xC'', chainId = 1, symbol = ''WBTC'', decimals = 8 \<rparr>"

definition tokD :: Token where
  "tokD = \<lparr> address = ''0xD'', chainId = 1, symbol = ''DAI'', decimals = 18 \<rparr>"

definition tokE :: Token where
  "tokE = \<lparr> address = ''0xE'', chainId = 1, symbol = ''GUSD'', decimals = 2 \<rparr>"

definition demoPool :: "Token \<Rightarrow> Token \<Rightarrow> int \<Rightarrow> Pool" where
  "demoPool a b f =
     \<lparr> token0 = a, token1 = b, fee = f, liquidity = 1000, sqrtRatioX96 = 79, tickCurrent = - 5 \<rparr>"

definition demoPoolAddress :: "Token \<Rightarrow> Token \<Rightarrow> int \<Rightarrow> string" where
  "demoPoolAddress a b f = address a @ ''/'' @ address b @ ''/'' @ toString f"

definition pathABC :: RouteAmount where
  "pathABC =
     \<lparr> route = \<lparr> tokenPath = [tokA, tokB, tokC],
                 pools = [demoPool tokA tokB 3000, demoPool tokB tokC 500] \<rparr>,
       amount = \<lparr> quotient = 50 \<rparr>, quote = \<lparr> quotient = 47 \<rparr> \<rparr>"

definition pathDBE :: RouteAmount where
  "pathDBE =
     \<lparr> route = \<lparr> tokenPath = [tokD, tokB, tokE],
                 pools = [demoPool tokD tokB 3000, demoPool tokB tokE 500] \<rparr>,
       amount = \<lparr> quotient = 30 \<rparr>, quote = \<lparr> quotient = 28 \<rparr> \<rparr>"

definition pathAB :: RouteAmount where
  "pathAB =
     \<lparr> route = \<lparr> tokenPath = [tokA, tokB], pools = [demoPool tokA tokB 3000] \<rparr>,
       amount = \<lparr> quotient = 50 \<rparr>, quote = \<lparr> quotient = 47 \<rparr> \<rparr>"

definition demoEdge :: "string \<Rightarrow> string \<Rightarrow> string \<Rightarrow> string option \<Rightarrow> string option \<Rightarrow> EdgeInRoute" where
  "demoEdge a b f ain aout =
     \<lparr> edge_type = ''v3-pool'', edge_id = a @ ''/'' @ b @ ''/'' @ f, inId = a, outId = b,
       edge_fee = f, edge_liquidity = ''1000'', edge_sqrtRatioX96 = ''79'',
       edge_tickCurrent = ''-5'', amountIn = ain, amountOut = aout \<rparr>"

text \<open>The graph of \<open>[A - B - C, D - B - E]\<close>, trade type \<open>exactIn\<close>.\<close>

definition nodesShared :: "NodeInRoute list" where
  "nodesShared =
     [\<lparr> node_type = ''token'', node_id = ''0xA'', node_chainId = 1, node_symbol = ''WETH'',
        node_decimals = ''18'' \<rparr>,
      \<lparr> node_type = ''token'', node_id = ''0xB'', node_chainId = 1, node_symbol = ''USDC'',
        node_decimals = ''18'' \<rparr>,
      \<lparr> node_type = ''token'', node_id = ''0xC'', node_chainId = 1, node_symbol = ''WBTC'',
        node_decimals = ''6'' \<rparr>,
      \<lparr> node_type = ''token'', node_id = ''0xD'', node_chainId = 1, node_symbol = ''DAI'',
        node_decimals = ''18'' \<rparr>,
      \<lparr> node_type = ''token'', node_id = ''0xE'', node_chainId = 1, node_symbol = ''GUSD'',
        node_decimals = ''6'' \<rparr>]"

definition edgesShared :: "EdgeInRoute list" where
  "edgesShared =
     [demoEdge ''0xA'' ''0xB'' ''3000'' (Some ''50'') None,
      demoEdge ''0xB'' ''0xC'' ''500'' None (Some ''47''),
      demoEdge ''0xD'' ''0xB'' ''3000'' (Some ''30'') None,
      demoEdge ''0xB'' ''0xE'' ''500'' None (Some ''28'')]"

text \<open>The graph of \<open>[A - B - C, A - B]\<close>, trade type \<open>exactOut\<close>.\<close>

definition nodesOut :: "NodeInRoute list" where
  "nodesOut =
     [\<lparr> node_type = ''token'', node_id = ''0xA'', node_chainId = 1, node_symbol = ''WETH'',
        node_decimals = ''18'' \<rparr>,
      \<lparr> node_type = ''token'', node_id = ''0xB'', node_chainId = 1, node_symbol = ''USDC'',
        node_decimals = ''18'' \<rparr>,
      \<lparr> node_type = ''token'', node_id = ''0xC'', node_chainId = 1, node_symbol = ''WBTC'',
        node_decimals = ''6'' \<rparr>]"

definition edgesOut :: "EdgeInRoute list" where
  "edgesOut =
     [demoEdge ''0xA'' ''0xB'' ''3000'' (Some ''47'') None,
      demoEdge ''0xB'' ''0xC'' ''500'' None (Some ''50''),
      demoEdge ''0xA'' ''0xB'' ''3000'' (Some ''47'') (Some ''50'')]"

text \<open>The graph of the single path \<open>[A - B]\<close>, trade type \<open>exactIn\<close>.\<close>

definition nodesAB :: "NodeInRoute list" where
  "nodesAB =
     [\<lparr> node_type = ''token'', node_id = ''0xA'', node_chainId = 1, node_symbol = ''WETH'',
        node_decimals = ''18'' \<rparr>,
      \<lparr> node_type = ''token'', node_id = ''0xB'', node_chainId = 1, node_symbol = ''USDC'',
        node_decimals = ''18'' \<rparr>]"

definition edgesAB :: "EdgeInRoute list" where
  "edgesAB = [demoEdge ''0xA'' ''0xB'' ''3000'' (Some ''50'') (Some ''47'')]"

text \<open>
  A handler over string-valued stand-ins for the container and the request objects. Its request
  schema declares the one key \<open>tokenIn\<close>, its response schema the one key \<open>quote\<close>, both
  as \<open>Joi.string().required()\<close>. \<open>demoParse\<close> agrees with \<open>JSON.parse\<close> on the four
  texts it is applied to below: two JSON objects, the text \<open>not json\<close> and the empty text.
\<close>

definition requiredString :: "string \<Rightarrow> KeySchema" where
  "requiredString label v =
     (case v of
        Undefined \<Rightarrow> Inl (label @ '' is required'')
      | Str s \<Rightarrow> Inr (Str s)
      | _ \<Rightarrow> Inl (label @ '' must be a string''))"

definition requestSchema :: ObjectSchema where
  "requestSchema = \<lparr> keys = [(''tokenIn'', requiredString ''tokenIn'')] \<rparr>"

definition responseSchema :: ObjectSchema where
  "responseSchema = \<lparr> keys = [(''quote'', requiredString ''quote'')] \<rparr>"

definition bodyWithExtra :: string where
  "bodyWithExtra = ''{\"tokenIn\":\"MKR\",\"extra\":\"1\"}''"

definition bodyWithoutTokenIn :: string where
  "bodyWithoutTokenIn = ''{\"extra\":\"1\"}''"

definition demoParse :: "string \<Rightarrow> jsval option" where
  "demoParse s =
     (if s = bodyWithExtra then Some (Obj [(''tokenIn'', Str ''MKR''), (''extra'', Str ''1'')])
      else if s = bodyWithoutTokenIn then Some (Obj [(''extra'', Str ''1'')])
      else None)"

definition eventOf :: "string \<Rightarrow> APIGatewayProxyEvent" where
  "eventOf s = \<lparr> event_body = Some s \<rparr>"


text \<open>
  An injector as the constructor leaves it, whose builder gives the container \<open>container\<close>;
  the same injector after \<open>build()\<close>; and an injector whose builder rejects.
\<close>

definition demoInjector :: "exn + string \<Rightarrow> (string, string) Injector" where
  "demoInjector requestInjected =
     newInjector (Inr ''container'') (\<lambda>c request event ctx. requestInjected)"

definition builtInjector :: "exn + string \<Rightarrow> (string, string) Injector" where
  "builtInjector requestInjected =
     (demoInjector requestInjected)\<lparr> containerInjected := Some ''container'' \<rparr>"

definition brokenInjector :: "(string, string) Injector" where
  "brokenInjector =
     newInjector (Inl (Error ''provider unreachable''))
       (\<lambda>c request event ctx. Inr ''requestInjected'')"

definition okInjected :: "exn + string" where
  "okInjected = Inr ''requestInjected''"

definition demoHandler ::
  "(string, string) Injector \<Rightarrow> exn + HandleRequestResult \<Rightarrow> exn + ObjectSchema option
     \<Rightarrow> exn + ObjectSchema option \<Rightarrow> (string, string) APIGLambdaHandler" where
  "demoHandler i result reqSchema resSchema =
     \<lparr> handlerName = ''quote'', injector = i,
       handleRequest = (\<lambda>ctx event request c r. result),
       requestBodySchema = reqSchema, responseBodySchema = resSchema \<rparr>"

definition quoteBody :: jsval where
  "quoteBody = Obj [(''quote'', Str ''47''), (''internal'', Str ''x'')]"




section \<open>Properties of the route graph\<close>

declare natToString.simps [simp del]
declare hopLoop.simps [simp del]

lemma graph_shared: "routeGraph demoPoolAddress ''exactIn'' [pathABC, pathDBE] = Inr (nodesShared, edgesShared)"
  by code_simp

lemma graph_out: "routeGraph demoPoolAddress ''exactOut'' [pathABC, pathAB] = Inr (nodesOut, edgesOut)"
  by code_simp

lemma graph_AB: "routeGraph demoPoolAddress ''exactIn'' [pathAB] = Inr (nodesAB, edgesAB)"
  by code_simp

lemma pushNode_inv: "nodeInv st \<Longrightarrow> nodeInv (pushNode tok d st)"
  by (auto simp: nodeInv_def pushNode_def tokenNode_def)

lemma pushNode_edges: "edges (pushNode tok d st) = edges st"
  by (simp add: pushNode_def)

text \<open>One step of the inner loop, when the loop returns: the next token exists, and the loop
  continues from the state with that token's node and the hop's edge pushed.\<close>

lemma hopLoop_step:
  assumes "i < length (pools (route ra))" and "hopLoop g ty ra i p st = Inr st'"
  shows "arrayAt (tokenPath (route ra)) (i + 1) = Some (tokenPath (route ra) ! (i + 1))"
    and "hopLoop g ty ra (i + 1) (tokenPath (route ra) ! (i + 1))
           ((pushNode (tokenPath (route ra) ! (i + 1)) p st)
              \<lparr> edges := edges st @
                 [hopEdge g ty ra i (pools (route ra) ! i) (tokenPath (route ra) ! (i + 1))] \<rparr>)
         = Inr st'"
proof -
  from assms obtain nt where nt: "arrayAt (tokenPath (route ra)) (i + 1) = Some nt"
    by (auto simp: hopLoop.simps [of g ty ra i] split: option.splits)
  then have eq: "nt = tokenPath (route ra) ! (i + 1)"
    by (simp add: arrayAt_def split: if_splits)
  with nt show "arrayAt (tokenPath (route ra)) (i + 1) = Some (tokenPath (route ra) ! (i + 1))"
    by simp
  from assms nt eq
  show "hopLoop g ty ra (i + 1) (tokenPath (route ra) ! (i + 1))
           ((pushNode (tokenPath (route ra) ! (i + 1)) p st)
              \<lparr> edges := edges st @
                 [hopEdge g ty ra i (pools (route ra) ! i) (tokenPath (route ra) ! (i + 1))] \<rparr>)
         = Inr st'"
    by (simp add: hopLoop.simps [of g ty ra i] Let_def pushNode_edges)
qed

lemma hopLoop_inv:
  "nodeInv st \<Longrightarrow> hopLoop g ty ra i p st = Inr st' \<Longrightarrow> nodeInv st'"
proof (induction g ty ra i p st rule: hopLoop.induct)
  case (1 g ty ra i p st)
  show ?case
  proof (cases "i < length (pools (route ra))")
    case False
    with "1.prems" show ?thesis by (simp add: hopLoop.simps)
  next
    case True
    note step = hopLoop_step [OF True "1.prems"(2)]
    let ?nt = "tokenPath (route ra) ! (i + 1)"
    let ?st1 = "pushNode ?nt p st"
    let ?st2 = "?st1\<lparr> edges := edges ?st1 @ [hopEdge g ty ra i (pools (route ra) ! i) ?nt] \<rparr>"
    have "nodeInv ?st2"
      using pushNode_inv [OF "1.prems"(1), of ?nt p] by (simp add: nodeInv_def)
    moreover have "hopLoop g ty ra (i + 1) ?nt ?st2 = Inr st'"
      using step(2) by (simp add: pushNode_edges)
    ultimately show ?thesis
      using "1.IH" [OF True step(1) refl refl refl] by simp
  qed
qed

lemma routeLoop_inv:
  "nodeInv st \<Longrightarrow> routeLoop g ty ras st = Inr st' \<Longrightarrow> nodeInv st'"
proof (induction ras arbitrary: st)
  case Nil
  then show ?case by simp
next
  case (Cons ra ras)
  from Cons.prems(2) obtain p st1 where
    h: "hopLoop g ty ra 0 p (pushNode p p st) = Inr st1" and
    r: "routeLoop g ty ras st1 = Inr st'"
    by (auto split: option.splits sum.splits)
  have "nodeInv st1"
    using hopLoop_inv [OF pushNode_inv [OF Cons.prems(1)] h] .
  then show ?case using Cons.IH r by blast
qed

lemma hopLoop_edges:
  "hopLoop g ty ra i p st = Inr st' \<Longrightarrow>
   edges st' = edges st @
     map (\<lambda>j. hopEdge g ty ra j (pools (route ra) ! j) (tokenPath (route ra) ! (j + 1)))
       [i..<length (pools (route ra))]"
proof (induction g ty ra i p st rule: hopLoop.induct)
  case (1 g ty ra i p st)
  show ?case
  proof (cases "i < length (pools (route ra))")
    case False
    with "1.prems" show ?thesis by (simp add: hopLoop.simps)
  next
    case True
    note step = hopLoop_step [OF True "1.prems"]
    let ?nt = "tokenPath (route ra) ! (i + 1)"
    let ?st1 = "pushNode ?nt p st"
    let ?st2 = "?st1\<lparr> edges := edges ?st1 @ [hopEdge g ty ra i (pools (route ra) ! i) ?nt] \<rparr>"
    have run: "hopLoop g ty ra (i + 1) ?nt ?st2 = Inr st'"
      using step(2) by (simp add: pushNode_edges)
    have "edges st' = edges ?st2 @
       map (\<lambda>j. hopEdge g ty ra j (pools (route ra) ! j) (tokenPath (route ra) ! (j + 1)))
         [i + 1..<length (pools (route ra))]"
      using "1.IH" [OF True step(1) refl refl refl run] .
    then show ?thesis
      using True by (simp add: upt_conv_Cons pushNode_edges)
  qed
qed

lemma routeLoop_edges:
  "routeLoop g ty ras st = Inr st' \<Longrightarrow> edges st' = edges st @ concat (map (pathEdges g ty) ras)"
proof (induction ras arbitrary: st)
  case Nil
  then show ?case by simp
next
  case (Cons ra ras)
  from Cons.prems obtain p st1 where
    h: "hopLoop g ty ra 0 p (pushNode p p st) = Inr st1" and
    r: "routeLoop g ty ras st1 = Inr st'"
    by (auto split: option.splits sum.splits)
  have "edges st1 = edges st @ pathEdges g ty ra"
    using hopLoop_edges [OF h] by (simp add: pathEdges_def pushNode_edges)
  with Cons.IH [OF r] show ?case by simp
qed

lemma routeGraph_edges:
  "routeGraph g ty ras = Inr (ns, es) \<Longrightarrow> es = concat (map (pathEdges g ty) ras)"
  by (auto simp: routeGraph_def split: sum.splits dest: routeLoop_edges)

text \<open>
  The loops return whenever every path lists more tokens than pools (a route of the router has
  one token more than it has pools).
\<close>

lemma hopLoop_returns:
  "length (pools (route ra)) < length (tokenPath (route ra)) \<Longrightarrow>
   \<exists>st'. hopLoop g ty ra i p st = Inr st'"
proof (induction g ty ra i p st rule: hopLoop.induct)
  case (1 g ty ra i p st)
  show ?case
  proof (cases "i < length (pools (route ra))")
    case False
    then show ?thesis by (simp add: hopLoop.simps)
  next
    case True
    with "1.prems"
    have nt: "arrayAt (tokenPath (route ra)) (i + 1) = Some (tokenPath (route ra) ! (i + 1))"
      by (simp add: arrayAt_def)
    show ?thesis
      using "1.IH" [OF True nt refl refl refl "1.prems"] True nt
      by (simp add: hopLoop.simps [of g ty ra i] Let_def)
  qed
qed

lemma routeLoop_returns:
  "\<forall>ra \<in> set ras. length (pools (route ra)) < length (tokenPath (route ra)) \<Longrightarrow>
   \<exists>st'. routeLoop g ty ras st = Inr st'"
proof (induction ras arbitrary: st)
  case Nil
  then show ?case by simp
next
  case (Cons ra ras)
  then have len: "length (pools (route ra)) < length (tokenPath (route ra))" by simp
  let ?p = "tokenPath (route ra) ! 0"
  from len have p: "arrayAt (tokenPath (route ra)) 0 = Some ?p"
    by (cases "tokenPath (route ra)") (auto simp: arrayAt_def)
  obtain st1 where "hopLoop g ty ra 0 ?p (pushNode ?p ?p st) = Inr st1"
    using hopLoop_returns [OF len] by blast
  with p Cons show ?case by simp
qed

lemma routeGraph_returns:
  "\<forall>ra \<in> set ras. length (pools (route ra)) < length (tokenPath (route ra)) \<Longrightarrow>
   \<exists>ns es. routeGraph g ty ras = Inr (ns, es)"
proof -
  assume "\<forall>ra \<in> set ras. length (pools (route ra)) < length (tokenPath (route ra))"
  then obtain st' where
    "routeLoop g ty ras \<lparr> tokenSet = {}, nodes = [], edges = [] \<rparr> = Inr st'"
    using routeLoop_returns by blast
  then show ?thesis by (simp add: routeGraph_def)
qed

text \<open>
  C3. Whatever list of paths the route-graph assembly is given, when it returns, no two nodes
  of the returned node list have the same id (token address): a token is a node at most once,
  however many paths and hops name it.
\<close>

theorem routeGraph_nodes_distinct:
  "routeGraph g ty ras = Inr (ns, es) \<Longrightarrow> distinct (map node_id ns)"
proof -
  assume run: "routeGraph g ty ras = Inr (ns, es)"
  then obtain st where
    st: "routeLoop g ty ras \<lparr> tokenSet = {}, nodes = [], edges = [] \<rparr> = Inr st" and
    ns: "ns = nodes st"
    by (auto simp: routeGraph_def split: sum.splits)
  have "nodeInv \<lparr> tokenSet = {}, nodes = [], edges = [] \<rparr>"
    by (simp add: nodeInv_def)
  then have "nodeInv st" using st by (rule routeLoop_inv)
  then show ?thesis using ns by (simp add: nodeInv_def)
qed

theorem routeGraph_nodes_distinct_witness:
  "routeGraph demoPoolAddress ''exactIn'' [pathABC, pathDBE] = Inr (nodesShared, edgesShared) \<and>
   distinct (map node_id nodesShared)"
  using routeGraph_nodes_distinct [OF graph_shared] graph_shared by simp

text \<open>
  C4. When the assembly returns, the edge list is the concatenation of one block of edges per
  path, in the order of the paths, one edge per pool of the path. In each block only the first
  edge has an amount-in (the path's amount when the trade type is \<open>exactIn\<close>, else the path's
  quote), only the last edge has an amount-out (the path's quote when the trade type is
  \<open>exactIn\<close>, else the path's amount), every other edge has neither, and the one edge of a
  single-hop path has both.
\<close>

theorem routeGraph_boundary_amounts:
  assumes "routeGraph g ty ras = Inr (ns, es)"
  shows "\<exists>ess. es = concat ess \<and> length ess = length ras \<and>
    (\<forall>k<length ras. length (ess ! k) = length (pools (route (ras ! k))) \<and>
       (\<forall>i<length (ess ! k).
          amountIn (ess ! k ! i) =
            (if i = 0
             then Some (if ty = ''exactIn'' then toString (quotient (amount (ras ! k)))
                        else toString (quotient (quote (ras ! k))))
             else None) \<and>
          amountOut (ess ! k ! i) =
            (if i = length (pools (route (ras ! k))) - 1
             then Some (if ty = ''exactIn'' then toString (quotient (quote (ras ! k)))
                        else toString (quotient (amount (ras ! k))))
             else None)))"
proof (intro exI conjI allI impI)
  show "es = concat (map (pathEdges g ty) ras)"
    using assms by (rule routeGraph_edges)
  show "length (map (pathEdges g ty) ras) = length ras" by simp
next
  fix k assume k: "k < length ras"
  then show "length (map (pathEdges g ty) ras ! k) = length (pools (route (ras ! k)))"
    by (simp add: pathEdges_def)
next
  fix k i assume k: "k < length ras" and i: "i < length (map (pathEdges g ty) ras ! k)"
  then have i': "i < length (pools (route (ras ! k)))" by (simp add: pathEdges_def)
  with k show "amountIn (map (pathEdges g ty) ras ! k ! i) =
            (if i = 0
             then Some (if ty = ''exactIn'' then toString (quotient (amount (ras ! k)))
                        else toString (quotient (quote (ras ! k))))
             else None)"
    by (simp add: pathEdges_def hopEdge_def edgeAmountIn_def)
  from k i' show "amountOut (map (pathEdges g ty) ras ! k ! i) =
            (if i = length (pools (route (ras ! k))) - 1
             then Some (if ty = ''exactIn'' then toString (quotient (quote (ras ! k)))
                        else toString (quotient (amount (ras ! k))))
             else None)"
    by (auto simp: pathEdges_def hopEdge_def edgeAmountOut_def)
qed

theorem routeGraph_boundary_amounts_witness:
  "routeGraph demoPoolAddress ''exactOut'' [pathABC, pathAB] = Inr (nodesOut, edgesOut) \<and>
   (\<exists>ess. edgesOut = concat ess \<and> length ess = length [pathABC, pathAB] \<and>
    (\<forall>k<length [pathABC, pathAB].
       length (ess ! k) = length (pools (route ([pathABC, pathAB] ! k))) \<and>
       (\<forall>i<length (ess ! k).
          amountIn (ess ! k ! i) =
            (if i = 0
             then Some (if ''exactOut'' = ''exactIn''
                        then toString (quotient (amount ([pathABC, pathAB] ! k)))
                        else toString (quotient (quote ([pathABC, pathAB] ! k))))
             else None) \<and>
          amountOut (ess ! k ! i) =
            (if i = length (pools (route ([pathABC, pathAB] ! k))) - 1
             then Some (if ''exactOut'' = ''exactIn''
                        then toString (quotient (quote ([pathABC, pathAB] ! k)))
                        else toString (quotient (amount ([pathABC, pathAB] ! k))))
             else None))))"
  by (rule conjI [OF graph_out routeGraph_boundary_amounts [OF graph_out]])

text \<open>
  C5 (what the code does). On the single path \<open>A - B\<close> the node pushed for \<open>B\<close> has the id
  and the symbol of \<open>B\<close>, and the decimals of \<open>A\<close> (\<open>18\<close>), the token before it on the path:
  the decimals of \<open>B\<close> are \<open>6\<close>.
\<close>

theorem next_token_node_has_previous_decimals:
  "routeGraph demoPoolAddress ''exactIn'' [pathAB] = Inr (nodesAB, edgesAB) \<and>
   node_id (nodesAB ! 1) = address tokB \<and>
   node_symbol (nodesAB ! 1) = symbol tokB \<and>
   node_decimals (nodesAB ! 1) = toString (decimals tokA) \<and>
   node_decimals (nodesAB ! 1) = ''18'' \<and>
   toString (decimals tokB) = ''6''"
proof -
  have "node_id (nodesAB ! 1) = address tokB" by code_simp
  moreover have "node_symbol (nodesAB ! 1) = symbol tokB" by code_simp
  moreover have "node_decimals (nodesAB ! 1) = toString (decimals tokA)" by code_simp
  moreover have "node_decimals (nodesAB ! 1) = ''18''" by code_simp
  moreover have "toString (decimals tokB) = ''6''" by code_simp
  ultimately show ?thesis using graph_AB by simp
qed

section \<open>Properties of the validator and of the pipeline\<close>

lemma validateKeys_names:
  "validateKeys ks props = Inr out \<Longrightarrow> fst ` set out \<subseteq> fst ` set ks"
proof (induction ks arbitrary: out)
  case Nil
  then show ?case by simp
next
  case (Cons kr ks)
  obtain k rule where kr: "kr = (k, rule)" by (cases kr)
  from Cons.prems kr obtain v out' where
    "validateKeys ks props = Inr out'" and "out = (if v = Undefined then out' else (k, v) # out')"
    by (auto split: sum.splits)
  with Cons.IH [of out'] kr show ?case by auto
qed

lemma validate_strip_names:
  "validate schema v \<lparr> allowUnknown = a, stripUnknown = True \<rparr> = Inr w \<Longrightarrow>
   fieldNames w \<subseteq> set (map fst (keys schema))"
  by (cases v) (auto simp: validate_def split: sum.splits dest!: validateKeys_names)





lemma parseAndValidateRequest_schema_update [simp]:
  "parseAndValidateRequest JSON_parse (h\<lparr> responseBodySchema := rs \<rparr>) event
     = parseAndValidateRequest JSON_parse h event"
  by (simp add: parseAndValidateRequest_def split: option.splits sum.splits)

lemma demo_request:
  "parseAndValidateRequest demoParse (demoHandler i res (Inr (Some requestSchema)) rs)
     (eventOf bodyWithExtra) = Inr (Valid (Obj [(''tokenIn'', Str ''MKR'')]))"
  by (simp add: parseAndValidateRequest_def demoHandler_def eventOf_def demoParse_def
      validate_def requestSchema_def requiredString_def getProp_def)


lemma demo_request_no_schema:
  "parseAndValidateRequest demoParse (demoHandler i res (Inr None) rs) (eventOf bodyWithExtra)
     = Inr (Valid (Obj [(''tokenIn'', Str ''MKR''), (''extra'', Str ''1'')]))"
  by (simp add: parseAndValidateRequest_def demoHandler_def eventOf_def demoParse_def)





lemma demo_schemas:
  "requestBodySchema (demoHandler i res qs rs) = qs"
  "responseBodySchema (demoHandler i res qs rs) = rs"
  "injector (demoHandler i res qs rs) = i"
  by (simp_all add: demoHandler_def)




lemma demo_parse:
  "demoParse bodyWithExtra = Some (Obj [(''tokenIn'', Str ''MKR''), (''extra'', Str ''1'')])"
  "demoParse bodyWithoutTokenIn = Some (Obj [(''extra'', Str ''1'')])"
  "demoParse ''not json'' = None"
  "demoParse [] = None"
  by (simp_all add: demoParse_def bodyWithExtra_def bodyWithoutTokenIn_def)

lemma demo_build: "build (demoInjector x) = Inr (builtInjector x)"
  by (simp add: build_def demoInjector_def builtInjector_def newInjector_def)




lemma detail_of_no_BigInt [simp]: "\<not> hasBigInt (detail_of r)"
proof (cases r)
  case (Response sc b)
  then show ?thesis by simp
next
  case (ErrorResponse sc ec d)
  then show ?thesis by (cases d) simp_all
qed

lemma errorCode_of_no_BigInt [simp]: "\<not> hasBigInt (errorCode_of r)"
  by (cases r) simp_all

lemma stringify_error_object:
  "stringify (Obj [(''detail'', detail_of r), (''errorCode'', errorCode_of r)])
     = Inr (JSON_stringify (Obj [(''detail'', detail_of r), (''errorCode'', errorCode_of r)]))"
  by (simp add: stringify_def)

lemma invalid_request_body:
  "parseAndValidateRequest JSON_parse h event = Inr (Invalid er) \<Longrightarrow> \<exists>s. body er = Text s"
  by (auto simp: parseAndValidateRequest_def split: option.splits sum.splits)

lemma invalid_response_body:
  "parseAndValidateResponse h b = Inr (Invalid er) \<Longrightarrow> \<exists>s. body er = Text s"
  by (auto simp: parseAndValidateResponse_def split: option.splits sum.splits)

lemma INTERNAL_ERROR_body:
  "body INTERNAL_ERROR = JSON_stringify
     (Obj [(''errorCode'', Str ''INTERNAL_ERROR''), (''detail'', Str ''Unexpected error.'')])"
  by (simp add: INTERNAL_ERROR_def)

text \<open>
  The whole function and its stages: once the logger is created, \<open>handlerFunction\<close> throws
  what \<open>handler\<close> throws, and answers what \<open>handler\<close> answers unless the answer is the final
  \<open>return\<close> with a value that \<open>JSON.stringify\<close> throws on.
\<close>

lemma handlerFunction_handler:
  assumes "createLogger (handlerName h) (awsRequestId ctx) = Inr log"
  shows "handlerFunction JSON_parse h event ctx =
    (case handler JSON_parse h event ctx of
       Inl err \<Rightarrow> Inl err
     | Inr resp \<Rightarrow>
         (case body resp of
            Text s \<Rightarrow> Inr resp
          | JSON_stringify v \<Rightarrow>
              if hasBigInt v then Inl (TypeError ''Do not know how to serialize a BigInt'')
              else Inr resp))"
  using assms
  by (auto simp: handlerFunction_def handler_def respond_def stringify_error_object
      INTERNAL_ERROR_body stringify_def
      split: sum.splits validation.splits
      dest!: invalid_request_body invalid_response_body)



lemma demo_keys_with_extra:
  "validateKeys (keys requestSchema) [(''tokenIn'', Str ''MKR''), (''extra'', Str ''1'')]
     = Inr [(''tokenIn'', Str ''MKR'')]"
  by (simp add: requestSchema_def requiredString_def getProp_def)

lemma demo_keys_without_tokenIn:
  "validateKeys (keys requestSchema) [(''extra'', Str ''1'')] = Inl ''tokenIn is required''"
  by (simp add: requestSchema_def requiredString_def getProp_def)


text \<open>
  C7. On an injector whose field is still \<open>undefined\<close> (in particular on a new one, and on
  one whose \<open>build()\<close> rejected, which stores nothing) the accessor throws the error
  \<open>Container injected undefined. Must call build() before using.\<close>; it does not return
  \<open>undefined\<close>. After a \<open>build()\<close> that completed, the accessor returns the container that
  \<open>buildContainerInjected\<close> produced: the stored one, whatever the builder would give if it
  were called again. The accessor is a function of the injector's state alone and leaves it as
  it is, so every later call returns the same container.
\<close>

theorem container_accessor_lifecycle:
  "(containerInjected self = None \<longrightarrow>
      getContainerInjected self =
        Inl (Error ''Container injected undefined. Must call build() before using.'')) \<and>
   getContainerInjected (newInjector b g) =
     Inl (Error ''Container injected undefined. Must call build() before using.'') \<and>
   (buildContainerInjected self = Inl e \<longrightarrow> build self = Inl e) \<and>
   (build self = Inr self' \<longrightarrow>
      (\<exists>c. buildContainerInjected self = Inr c \<and> containerInjected self' = Some c \<and>
           getContainerInjected self' = Inr c \<and>
           (\<forall>b'. getContainerInjected (self'\<lparr> buildContainerInjected := b' \<rparr>) = Inr c)))"
  by (auto simp: getContainerInjected_def newInjector_def build_def split: sum.splits)

theorem container_accessor_lifecycle_witness:
  "containerInjected (demoInjector okInjected) = None \<and>
   getContainerInjected (demoInjector okInjected) =
     Inl (Error ''Container injected undefined. Must call build() before using.'') \<and>
   buildContainerInjected brokenInjector = Inl (Error ''provider unreachable'') \<and>
   build brokenInjector = Inl (Error ''provider unreachable'') \<and>
   build (demoInjector okInjected) = Inr (builtInjector okInjected) \<and>
   (\<exists>c. buildContainerInjected (demoInjector okInjected) = Inr c \<and>
        containerInjected (builtInjector okInjected) = Some c \<and>
        getContainerInjected (builtInjector okInjected) = Inr c \<and>
        (\<forall>b'. getContainerInjected ((builtInjector okInjected)\<lparr> buildContainerInjected := b' \<rparr>)
               = Inr c))"
proof -
  have a: "containerInjected (demoInjector okInjected) = None"
    by (simp add: demoInjector_def newInjector_def)
  have b: "buildContainerInjected brokenInjector = Inl (Error ''provider unreachable'')"
    by (simp add: brokenInjector_def newInjector_def)
  note t1 = container_accessor_lifecycle [where self = "demoInjector okInjected" and self' = "builtInjector okInjected"]
  note t2 = container_accessor_lifecycle [where self = brokenInjector and e = "Error ''provider unreachable''"]
  from t1 a have c1: "getContainerInjected (demoInjector okInjected) =
     Inl (Error ''Container injected undefined. Must call build() before using.'')" by blast
  from t2 b have c2: "build brokenInjector = Inl (Error ''provider unreachable'')" by blast
  from t1 demo_build [of okInjected]
  have c3: "\<exists>c. buildContainerInjected (demoInjector okInjected) = Inr c \<and>
        containerInjected (builtInjector okInjected) = Some c \<and>
        getContainerInjected (builtInjector okInjected) = Inr c \<and>
        (\<forall>b'. getContainerInjected ((builtInjector okInjected)\<lparr> buildContainerInjected := b' \<rparr>)
               = Inr c)" by blast
  from a c1 b c2 demo_build [of okInjected] c3 show ?thesis by blast
qed




text \<open>
  C2 as stated fails: the body \<open>{"tokenIn":"MKR","extra":"1"}\<close> passes a request schema
  that declares \<open>tokenIn\<close> only, and the parsed request has no property \<open>extra\<close>.
\<close>

theorem request_unknown_field_not_passed_through:
  "event_body (eventOf bodyWithExtra) = Some bodyWithExtra \<and>
   demoParse bodyWithExtra = Some (Obj [(''tokenIn'', Str ''MKR''), (''extra'', Str ''1'')]) \<and>
   requestBodySchema (demoHandler (builtInjector okInjected) (Inr (Response 200 quoteBody))
      (Inr (Some requestSchema)) (Inr (Some responseSchema))) = Inr (Some requestSchema) \<and>
   ''extra'' \<notin> set (map fst (keys requestSchema)) \<and>
   parseAndValidateRequest demoParse
     (demoHandler (builtInjector okInjected) (Inr (Response 200 quoteBody))
        (Inr (Some requestSchema)) (Inr (Some responseSchema)))
     (eventOf bodyWithExtra) = Inr (Valid (Obj [(''tokenIn'', Str ''MKR'')])) \<and>
   ''extra'' \<notin> fieldNames (Obj [(''tokenIn'', Str ''MKR'')])"
proof -
  have "event_body (eventOf bodyWithExtra) = Some bodyWithExtra"
    by (simp add: eventOf_def)
  moreover have "''extra'' \<notin> set (map fst (keys requestSchema))"
    by (simp add: requestSchema_def)
  moreover have "''extra'' \<notin> fieldNames (Obj [(''tokenIn'', Str ''MKR'')])"
    by simp
  ultimately show ?thesis
    using demo_request demo_parse(1) demo_schemas(1) by blast
qed

text \<open>
  C2, as amended. The request is validated with \<open>allowUnknown: true, stripUnknown: true\<close>,
  as the response is. When the handler declares a request schema and the body parses to an
  object, the rules of the declared keys alone decide: the request is rejected, with status 400
  and the rule's message, exactly when the rule of a declared key fails, and is accepted
  otherwise, as the object of the declared keys' validated values. So a property that the
  schema does not declare is never a reason for rejection and never a property of the parsed
  request. When the handler declares no request schema, the parsed request is the parsed body
  as it is.
\<close>

theorem request_unknown_fields_stripped:
  "(requestBodySchema h = Inr (Some schema) \<and>
    JSON_parse (case event_body event of None \<Rightarrow> [] | Some s \<Rightarrow> s) = Some (Obj props) \<longrightarrow>
      parseAndValidateRequest JSON_parse h event =
        (case validateKeys (keys schema) props of
           Inl message \<Rightarrow> Inr (Invalid \<lparr> statusCode = 400, body = Text message \<rparr>)
         | Inr known \<Rightarrow> Inr (Valid (Obj known)))) \<and>
   (requestBodySchema h = Inr (Some schema) \<and>
    parseAndValidateRequest JSON_parse h event = Inr (Valid request) \<longrightarrow>
      (\<forall>k. k \<notin> set (map fst (keys schema)) \<longrightarrow> k \<notin> fieldNames request)) \<and>
   (requestBodySchema h = Inr None \<and>
    JSON_parse (case event_body event of None \<Rightarrow> [] | Some s \<Rightarrow> s) = Some parsed \<longrightarrow>
      parseAndValidateRequest JSON_parse h event = Inr (Valid parsed))"
proof (intro conjI impI)
  assume "requestBodySchema h = Inr (Some schema) \<and>
    JSON_parse (case event_body event of None \<Rightarrow> [] | Some s \<Rightarrow> s) = Some (Obj props)"
  then show "parseAndValidateRequest JSON_parse h event =
        (case validateKeys (keys schema) props of
           Inl message \<Rightarrow> Inr (Invalid \<lparr> statusCode = 400, body = Text message \<rparr>)
         | Inr known \<Rightarrow> Inr (Valid (Obj known)))"
    by (simp add: parseAndValidateRequest_def validate_def split: sum.splits)
next
  assume a: "requestBodySchema h = Inr (Some schema) \<and>
    parseAndValidateRequest JSON_parse h event = Inr (Valid request)"
  then obtain parsed where
    "validate schema parsed \<lparr> allowUnknown = True, stripUnknown = True \<rparr> = Inr request"
    by (auto simp: parseAndValidateRequest_def split: option.splits sum.splits)
  then have "fieldNames request \<subseteq> set (map fst (keys schema))"
    by (rule validate_strip_names)
  then show "\<forall>k. k \<notin> set (map fst (keys schema)) \<longrightarrow> k \<notin> fieldNames request" by blast
next
  assume "requestBodySchema h = Inr None \<and>
    JSON_parse (case event_body event of None \<Rightarrow> [] | Some s \<Rightarrow> s) = Some parsed"
  then show "parseAndValidateRequest JSON_parse h event = Inr (Valid parsed)"
    by (simp add: parseAndValidateRequest_def)
qed

theorem request_unknown_fields_stripped_witness:
  "demoParse (case event_body (eventOf bodyWithExtra) of None \<Rightarrow> [] | Some s \<Rightarrow> s)
     = Some (Obj [(''tokenIn'', Str ''MKR''), (''extra'', Str ''1'')]) \<and>
   ''extra'' \<notin> set (map fst (keys requestSchema)) \<and>
   validateKeys (keys requestSchema) [(''tokenIn'', Str ''MKR''), (''extra'', Str ''1'')]
     = Inr [(''tokenIn'', Str ''MKR'')] \<and>
   parseAndValidateRequest demoParse
     (demoHandler (builtInjector okInjected) (Inr (Response 200 quoteBody))
        (Inr (Some requestSchema)) (Inr (Some responseSchema)))
     (eventOf bodyWithExtra) = Inr (Valid (Obj [(''tokenIn'', Str ''MKR'')])) \<and>
   ''extra'' \<notin> fieldNames (Obj [(''tokenIn'', Str ''MKR'')]) \<and>
   demoParse (case event_body (eventOf bodyWithoutTokenIn) of None \<Rightarrow> [] | Some s \<Rightarrow> s)
     = Some (Obj [(''extra'', Str ''1'')]) \<and>
   validateKeys (keys requestSchema) [(''extra'', Str ''1'')] = Inl ''tokenIn is required'' \<and>
   parseAndValidateRequest demoParse
     (demoHandler (builtInjector okInjected) (Inr (Response 200 quoteBody))
        (Inr (Some requestSchema)) (Inr (Some responseSchema)))
     (eventOf bodyWithoutTokenIn)
     = Inr (Invalid \<lparr> statusCode = 400, body = Text ''tokenIn is required'' \<rparr>) \<and>
   requestBodySchema (demoHandler (builtInjector okInjected) (Inr (Response 200 quoteBody))
      (Inr None) (Inr (Some responseSchema))) = Inr None \<and>
   parseAndValidateRequest demoParse
     (demoHandler (builtInjector okInjected) (Inr (Response 200 quoteBody))
        (Inr None) (Inr (Some responseSchema)))
     (eventOf bodyWithExtra)
     = Inr (Valid (Obj [(''tokenIn'', Str ''MKR''), (''extra'', Str ''1'')]))"
proof -
  let ?rs = "Inr (Some responseSchema) :: exn + ObjectSchema option"
  let ?ok = "Inr (Response 200 quoteBody) :: exn + HandleRequestResult"
  let ?h1 = "demoHandler (builtInjector okInjected) ?ok (Inr (Some requestSchema)) ?rs"
  let ?h2 = "demoHandler (builtInjector okInjected) ?ok (Inr None) ?rs"
  have s1: "requestBodySchema ?h1 = Inr (Some requestSchema)" by (rule demo_schemas)
  have s2: "requestBodySchema ?h2 = Inr None" by (rule demo_schemas)
  have p1: "demoParse (case event_body (eventOf bodyWithExtra) of None \<Rightarrow> [] | Some s \<Rightarrow> s)
     = Some (Obj [(''tokenIn'', Str ''MKR''), (''extra'', Str ''1'')])"
    by (simp add: eventOf_def demo_parse)
  have p2: "demoParse (case event_body (eventOf bodyWithoutTokenIn) of None \<Rightarrow> [] | Some s \<Rightarrow> s)
     = Some (Obj [(''extra'', Str ''1'')])"
    by (simp add: eventOf_def demo_parse)
  have u: "''extra'' \<notin> set (map fst (keys requestSchema))" by (simp add: requestSchema_def)
  note t = request_unknown_fields_stripped [where JSON_parse = demoParse]
  have "parseAndValidateRequest demoParse ?h1 (eventOf bodyWithExtra) =
        (case validateKeys (keys requestSchema) [(''tokenIn'', Str ''MKR''), (''extra'', Str ''1'')] of
           Inl message \<Rightarrow> Inr (Invalid \<lparr> statusCode = 400, body = Text message \<rparr>)
         | Inr known \<Rightarrow> Inr (Valid (Obj known)))"
    by (rule t [THEN conjunct1, rule_format]) (simp add: s1 p1)
  then have c1: "parseAndValidateRequest demoParse ?h1 (eventOf bodyWithExtra)
      = Inr (Valid (Obj [(''tokenIn'', Str ''MKR'')]))"
    by (simp add: demo_keys_with_extra)
  have "\<forall>k. k \<notin> set (map fst (keys requestSchema)) \<longrightarrow>
      k \<notin> fieldNames (Obj [(''tokenIn'', Str ''MKR'')])"
    by (rule t [where h = ?h1 and event = "eventOf bodyWithExtra", THEN conjunct2, THEN conjunct1, THEN mp])
      (simp add: s1 c1)
  with u have c2: "''extra'' \<notin> fieldNames (Obj [(''tokenIn'', Str ''MKR'')])" by blast
  have "parseAndValidateRequest demoParse ?h1 (eventOf bodyWithoutTokenIn) =
        (case validateKeys (keys requestSchema) [(''extra'', Str ''1'')] of
           Inl message \<Rightarrow> Inr (Invalid \<lparr> statusCode = 400, body = Text message \<rparr>)
         | Inr known \<Rightarrow> Inr (Valid (Obj known)))"
    by (rule t [THEN conjunct1, rule_format]) (simp add: s1 p2)
  then have c3: "parseAndValidateRequest demoParse ?h1 (eventOf bodyWithoutTokenIn)
      = Inr (Invalid \<lparr> statusCode = 400, body = Text ''tokenIn is required'' \<rparr>)"
    by (simp add: demo_keys_without_tokenIn)
  have c4: "parseAndValidateRequest demoParse ?h2 (eventOf bodyWithExtra)
     = Inr (Valid (Obj [(''tokenIn'', Str ''MKR''), (''extra'', Str ''1'')]))"
    by (rule t [THEN conjunct2, THEN conjunct2, rule_format]) (simp add: s2 p1)
  from p1 u demo_keys_with_extra c1 c2 p2 demo_keys_without_tokenIn c3 s2 c4
  show ?thesis by simp
qed










end
